theory Spec2Isabelle
  imports Main "HOL-Library.Word"
begin

unbundle bit_operations_syntax

section \<open>The ia32 CPUID dumper (src/ia32/ggg-cpuid.c)\<close>

subsection \<open>Data\<close>

text \<open>
  \<^verbatim>\<open>uint32_t\<close> is \<open>32 word\<close>: \<open>+\<close> wraps, \<open><\<close> and \<open>\<le>\<close> compare unsigned.
  \<^verbatim>\<open>struct cpuid_result_t\<close> is a record of four such words.
\<close>

type_synonym u32 = "32 word"

record cpuid_result =
  eax :: u32
  ebx :: u32
  ecx :: u32
  edx :: u32

text \<open>
  The \<^verbatim>\<open>cpuid\<close> instruction inside \<^verbatim>\<open>do_cpuid\<close> is opaque: it is a parameter of
  the model, a function from leaf and subleaf to the four result words.
\<close>

type_synonym query = "u32 \<Rightarrow> u32 \<Rightarrow> cpuid_result"

text \<open>
  What a run does is recorded in a log, oldest event first: \<open>Query l s\<close> for
  each execution of the instruction by \<^verbatim>\<open>do_cpuid(l, s)\<close>, \<open>Row l s r\<close> for
  each line printed by \<^verbatim>\<open>print_subleaf(l, s, r)\<close>, \<open>Header\<close> for the two
  heading lines printed by \<^verbatim>\<open>main\<close>. \<open>Leaf_call l\<close> is a ghost event: it
  marks the entry into \<^verbatim>\<open>cpuid_leaf(l)\<close>, which prints nothing by itself, so
  that the leaves handed to it by the level loop can be observed.
\<close>

datatype event =
  Query u32 u32
| Row u32 u32 cpuid_result
| Leaf_call u32
| Header

type_synonym log = "event list"

text \<open>
  \<^verbatim>\<open>++leaf\<close> on the \<^verbatim>\<open>int\<close> loop variable of \<^verbatim>\<open>cpuid_level\<close> is
  undefined in C when the variable holds \<^verbatim>\<open>INT_MAX\<close>; the model stops there
  with this error instead of choosing a behaviour.
\<close>

datatype error = Signed_overflow

subsection \<open>do_cpuid and print_subleaf\<close>

definition do_cpuid :: "query \<Rightarrow> u32 \<Rightarrow> u32 \<Rightarrow> log \<Rightarrow> cpuid_result \<times> log" where
  "do_cpuid q leaf subleaf log = (q leaf subleaf, log @ [Query leaf subleaf])"

definition print_subleaf :: "u32 \<Rightarrow> u32 \<Rightarrow> cpuid_result \<Rightarrow> log \<Rightarrow> log" where
  "print_subleaf leaf subleaf r log = log @ [Row leaf subleaf r]"

subsection \<open>cpuid_leaf\<close>

text \<open>
  The \<^verbatim>\<open>switch (leaf)\<close> of the loop body: \<open>True\<close> where the taken case executes
  \<^verbatim>\<open>return\<close>, \<open>False\<close> where it reaches \<^verbatim>\<open>break\<close>. C's \<^verbatim>\<open>a || b\<close> is
  \<open>a \<noteq> 0 \<or> b \<noteq> 0\<close> and \<^verbatim>\<open>(...) == 0\<close> negates it; \<^verbatim>\<open>~0xff\<close> is the
  \<^verbatim>\<open>int\<close> -256, converted to \<^verbatim>\<open>uint32_t\<close> for the \<^verbatim>\<open>&\<close>, that is
  \<open>NOT 0xff = 0xFFFFFF00\<close>; \<^verbatim>\<open>!memcmp(&last_subleaf, &r, sizeof(last_subleaf))\<close>
  on a struct of four \<^verbatim>\<open>uint32_t\<close> (no padding) is equality of the records.
\<close>

definition switch_returns :: "u32 \<Rightarrow> u32 \<Rightarrow> cpuid_result \<Rightarrow> cpuid_result \<Rightarrow> bool" where
  "switch_returns leaf subleaf r last_subleaf =
     (if leaf = 0x7 then subleaf > eax r
      else if leaf = 0xb then \<not> (eax r \<noteq> 0 \<or> ebx r \<noteq> 0 \<or> (ecx r AND NOT 0xff) \<noteq> 0)
      else if leaf = 0x14 then subleaf > eax r
      else if leaf = 0x1f then (ecx r AND 0xff00) = 0
      else \<not> (eax r \<noteq> 0 \<or> ebx r \<noteq> 0 \<or> ecx r \<noteq> 0 \<or> edx r \<noteq> 0) \<or> last_subleaf = r)"

text \<open>
  The loop \<^verbatim>\<open>for (uint32_t subleaf = 0; subleaf > -1; ++subleaf)\<close>. Its guard
  compares a \<^verbatim>\<open>uint32_t\<close> with the \<^verbatim>\<open>int\<close> constant -1. \<^verbatim>\<open>uint32_t\<close> is
  \<^verbatim>\<open>unsigned int\<close> on ia32, of the same rank as \<^verbatim>\<open>int\<close>, so the usual
  arithmetic conversions (C11 6.3.1.8) convert the signed operand to the
  unsigned type, -1 becomes \<open>2^32 - 1\<close> (C11 6.3.1.3) and the comparison is
  unsigned: in the model \<open>- 1 < subleaf\<close> on \<open>32 word\<close>, where \<open>- 1\<close> is
  the word \<open>0xFFFFFFFF\<close>. \<^verbatim>\<open>++subleaf\<close> is unsigned and wraps. The loop is
  written with \<^theory_text>\<open>partial_function\<close>: \<open>None\<close> is a run that never
  returns. \<open>last_subleaf\<close> starts as the all-zero struct and takes the
  result of each subleaf that was printed.
\<close>

partial_function (option) cpuid_leaf_loop ::
  "query \<Rightarrow> u32 \<Rightarrow> u32 \<Rightarrow> cpuid_result \<Rightarrow> log \<Rightarrow> log option" where
  "cpuid_leaf_loop q leaf subleaf last_subleaf log =
     (if - 1 < subleaf then
        (case do_cpuid q leaf subleaf log of (r, log1) \<Rightarrow>
           if switch_returns leaf subleaf r last_subleaf then Some log1
           else cpuid_leaf_loop q leaf (subleaf + 1) r (print_subleaf leaf subleaf r log1))
      else Some log)"

definition zero_result :: cpuid_result where
  "zero_result = \<lparr>eax = 0, ebx = 0, ecx = 0, edx = 0\<rparr>"

definition cpuid_leaf :: "query \<Rightarrow> u32 \<Rightarrow> log \<Rightarrow> log option" where
  "cpuid_leaf q leaf log = cpuid_leaf_loop q leaf 0 zero_result (log @ [Leaf_call leaf])"

subsection \<open>cpuid_level\<close>

text \<open>
  The loop \<^verbatim>\<open>for (int leaf = level; leaf <= max_leaf; ++leaf)\<close>. The
  \<^verbatim>\<open>int\<close> variable is kept as its 32 bits: the initialisation from the
  \<^verbatim>\<open>uint32_t level\<close> keeps the bits (implementation-defined above \<^verbatim>\<open>INT_MAX\<close>,
  and so defined by the ia32 compilers), \<^verbatim>\<open>leaf <= max_leaf\<close> converts
  \<^verbatim>\<open>leaf\<close> to unsigned and compares unsigned, \<^verbatim>\<open>cpuid_leaf(leaf)\<close> converts
  to \<^verbatim>\<open>uint32_t\<close>. Only \<^verbatim>\<open>++leaf\<close> is signed: at \<open>0x7FFFFFFF\<close> it overflows.
  \<open>Some (Inr log)\<close> is a normal return, \<open>Some (Inl e)\<close> a run that reached
  undefined behaviour, \<open>None\<close> a run in which a leaf never returns.
\<close>

function cpuid_level_loop ::
  "query \<Rightarrow> u32 \<Rightarrow> u32 \<Rightarrow> log \<Rightarrow> (error + log) option" where
  "cpuid_level_loop q leaf max_leaf log =
     (if leaf \<le> max_leaf then
        (case cpuid_leaf q leaf log of
           None \<Rightarrow> None
         | Some log1 \<Rightarrow>
             if leaf = 0x7FFFFFFF then Some (Inl Signed_overflow)
             else cpuid_level_loop q (leaf + 1) max_leaf log1)
      else Some (Inr log))"
  by pat_completeness auto
termination
proof (relation "measure (\<lambda>(q, leaf, max_leaf, log). unat (0x7FFFFFFF - leaf))")
  show "wf (measure (\<lambda>(q, leaf, max_leaf, log). unat (0x7FFFFFFF - leaf)))"
    by simp
next
  fix q :: query and leaf max_leaf :: u32 and log x2 :: log
  assume "leaf \<noteq> 0x7FFFFFFF"
  then have nz: "0x7FFFFFFF - leaf \<noteq> 0"
    by simp
  have eq: "0x7FFFFFFF - (leaf + 1) = (0x7FFFFFFF - leaf) - 1"
    by (simp only: diff_diff_eq)
  have pos: "unat (0x7FFFFFFF - leaf) \<noteq> 0"
    using nz by (simp only: unat_eq_0 not_False_eq_True)
  have "unat (0x7FFFFFFF - (leaf + 1)) < unat (0x7FFFFFFF - leaf)"
    unfolding eq unat_minus_one [OF nz] using pos by linarith
  then show "((q, leaf + 1, max_leaf, x2), (q, leaf, max_leaf, log))
      \<in> measure (\<lambda>(q, leaf, max_leaf, log). unat (0x7FFFFFFF - leaf))"
    by simp
qed

definition cpuid_level :: "query \<Rightarrow> u32 \<Rightarrow> log \<Rightarrow> (error + log) option" where
  "cpuid_level q level log =
     (case do_cpuid q level 0 log of (r, log1) \<Rightarrow>
        cpuid_level_loop q level (eax r) log1)"

subsection \<open>dump_cpuid and main\<close>

definition dump_cpuid :: "query \<Rightarrow> log \<Rightarrow> (error + log) option" where
  "dump_cpuid q log =
     (case cpuid_level q 0 log of
        Some (Inr log1) \<Rightarrow> cpuid_level q 0x80000000 log1
      | other \<Rightarrow> other)"

text \<open>
  \<^verbatim>\<open>main\<close> from the point where its option loop has ended. \<open>leaf_opt\<close> is
  \<open>Some v\<close> when \<^verbatim>\<open>-l\<close> was given and \<open>v\<close> is what the assignment
  \<^verbatim>\<open>leaf = strtol(optarg, &endptr, 16)\<close> left in the \<^verbatim>\<open>uint32_t\<close> (the last one
  if the option is repeated), and \<open>None\<close> when the variable still holds its
  initial value \<^verbatim>\<open>0xffffffff\<close>; likewise \<open>subleaf_opt\<close> for \<^verbatim>\<open>-s\<close>. The paths
  that leave \<^verbatim>\<open>main\<close> inside the option loop (help, unknown option, a failed
  \<^verbatim>\<open>strtol\<close>) are not part of the model. The result carries the exit status,
  which is 0 on every path below.
\<close>

definition main :: "query \<Rightarrow> u32 option \<Rightarrow> u32 option \<Rightarrow> (error + int \<times> log) option" where
  "main q leaf_opt subleaf_opt =
     (let leaf = (case leaf_opt of None \<Rightarrow> 0xffffffff | Some v \<Rightarrow> v);
          subleaf = (case subleaf_opt of None \<Rightarrow> 0xffffffff | Some v \<Rightarrow> v);
          log = [Header]
      in if leaf \<noteq> 0xffffffff then
           if subleaf \<noteq> 0xffffffff then
             (case do_cpuid q leaf subleaf log of (r, log1) \<Rightarrow>
                Some (Inr (0, print_subleaf leaf subleaf r log1)))
           else
             (case cpuid_leaf q leaf log of
                None \<Rightarrow> None
              | Some log1 \<Rightarrow> Some (Inr (0, log1)))
         else
           (case dump_cpuid q log of
              None \<Rightarrow> None
            | Some (Inl e) \<Rightarrow> Some (Inl e)
            | Some (Inr log1) \<Rightarrow> Some (Inr (0, log1))))"

subsection \<open>The level enumerator as the specification words it\<close>

text \<open>
  The specification's level enumerator runs the leaf enumerator for each leaf
  from the base to \<open>max_leaf\<close> inclusive, in increasing order. \<open>leaf_range\<close>
  is that list of leaves (empty when \<open>max_leaf\<close> is below the base) and
  \<open>leaves_seq\<close> runs \<open>cpuid_leaf\<close> over a list of leaves, one after the
  other. \<open>leaf_calls\<close> reads the leaves handed to \<open>cpuid_leaf\<close> off a log.
\<close>

definition leaf_range :: "u32 \<Rightarrow> u32 \<Rightarrow> u32 list" where
  "leaf_range level max_leaf = map of_nat [unat level..<Suc (unat max_leaf)]"

fun leaves_seq :: "query \<Rightarrow> u32 list \<Rightarrow> log \<Rightarrow> (error + log) option" where
  "leaves_seq q [] log = Some (Inr log)"
| "leaves_seq q (leaf # leaves) log =
     (case cpuid_leaf q leaf log of
        None \<Rightarrow> None
      | Some log1 \<Rightarrow> leaves_seq q leaves log1)"

fun leaf_calls :: "log \<Rightarrow> u32 list" where
  "leaf_calls [] = []"
| "leaf_calls (Leaf_call l # es) = l # leaf_calls es"
| "leaf_calls (e # es) = leaf_calls es"

subsection \<open>Query primitives used as concrete inputs\<close>

text \<open>
  \<open>script_leaf7\<close>: every subleaf of every leaf answers \<open>eax = 2\<close> and a
  nonzero \<open>ebx\<close> that differs from subleaf to subleaf. \<open>script_zero_at_1\<close>:
  subleaf 0 is nonzero, every later subleaf is all-zero. \<open>script_topology\<close>:
  \<open>ecx\<close> is \<open>0x100\<close> at subleaf 0, \<open>0x200\<close> at subleaf 1, the other words
  are zero, and the result is all-zero from subleaf 2 on. \<open>never_stops\<close>
  satisfies no stop condition of any leaf at any subleaf. \<open>all_ones\<close>
  reports \<open>eax = 0xFFFFFFFF\<close> everywhere, \<open>int_max_everywhere\<close> reports
  \<open>eax = 0x7FFFFFFF\<close> everywhere and \<open>all_zero\<close> reports zero everywhere.
\<close>

definition script_leaf7 :: query where
  "script_leaf7 leaf subleaf = \<lparr>eax = 2, ebx = subleaf + 1, ecx = 0, edx = 0\<rparr>"

definition script_zero_at_1 :: query where
  "script_zero_at_1 leaf subleaf =
     (if subleaf = 0 then \<lparr>eax = 1, ebx = 0, ecx = 0, edx = 0\<rparr> else zero_result)"

definition script_topology :: query where
  "script_topology leaf subleaf =
     (if subleaf = 0 then \<lparr>eax = 0, ebx = 0, ecx = 0x100, edx = 0\<rparr>
      else if subleaf = 1 then \<lparr>eax = 0, ebx = 0, ecx = 0x200, edx = 0\<rparr>
      else zero_result)"

definition never_stops :: query where
  "never_stops leaf subleaf = \<lparr>eax = 0xFFFFFFFF, ebx = subleaf, ecx = 0x100, edx = 0\<rparr>"

definition all_ones :: query where
  "all_ones leaf subleaf = \<lparr>eax = 0xFFFFFFFF, ebx = 0, ecx = 0, edx = 0\<rparr>"

definition int_max_everywhere :: query where
  "int_max_everywhere leaf subleaf = \<lparr>eax = 0x7FFFFFFF, ebx = 0, ecx = 0, edx = 0\<rparr>"

definition all_zero :: query where
  "all_zero leaf subleaf = zero_result"

section \<open>The ARM register-read driver (src/arm/ggg-driver.c)\<close>

text \<open>
  The driver is for 32-bit ARM (\<^verbatim>\<open>mrc p15\<close>): \<^verbatim>\<open>size_t\<close> is an unsigned
  32-bit integer, \<^verbatim>\<open>int\<close> and \<^verbatim>\<open>ssize_t\<close> are signed 32-bit integers, user
  addresses are 32 bits. User memory is a function from addresses to bytes.
  \<^verbatim>\<open>put_user\<close> belongs to the kernel: it stores one byte and yields 0, or
  stores nothing and yields a nonzero value when the address is not writable;
  the set \<open>W\<close> of writable addresses is a parameter. The coprocessor read
  \<^verbatim>\<open>mrc p15, 0, %0, c0, cM, N\<close> is the parameter \<open>mrc M N\<close>.
\<close>

type_synonym size_t = "32 word"
type_synonym addr = "32 word"
type_synonym user_mem = "addr \<Rightarrow> 8 word"

definition EFAULT :: int where
  "EFAULT = 14"

definition put_user :: "addr set \<Rightarrow> 8 word \<Rightarrow> addr \<Rightarrow> user_mem \<Rightarrow> int \<times> user_mem" where
  "put_user W x ptr mem = (if ptr \<in> W then (0, mem(ptr := x)) else (- EFAULT, mem))"

text \<open>
  \<^verbatim>\<open>while (count--)\<close> with \<^verbatim>\<open>count\<close> starting at 4: the body sees 3, 2, 1, 0,
  so the shifts are 0, 8, 16, 24 and the word goes out low byte first. The
  store through \<^verbatim>\<open>char *\<close> keeps the low 8 bits.
\<close>

fun put_word_loop :: "addr set \<Rightarrow> u32 \<Rightarrow> addr \<Rightarrow> nat \<Rightarrow> user_mem \<Rightarrow> int \<times> user_mem" where
  "put_word_loop W cpuid_val buffer 0 mem = (0, mem)"
| "put_word_loop W cpuid_val buffer (Suc count) mem =
     (case put_user W (ucast (drop_bit ((3 - count) * 8) cpuid_val)) buffer mem of
        (rc, mem1) \<Rightarrow>
          if rc \<noteq> 0 then (- EFAULT, mem1)
          else put_word_loop W cpuid_val (buffer + 1) count mem1)"

definition put_word :: "addr set \<Rightarrow> u32 \<Rightarrow> addr \<Rightarrow> user_mem \<Rightarrow> int \<times> user_mem" where
  "put_word W cpuid_val buffer mem = put_word_loop W cpuid_val buffer 4 mem"

text \<open>
  The \<^verbatim>\<open>switch (count)\<close> falls through from its entry label down to
  \<^verbatim>\<open>case 0\<close>. Between the labels \<^verbatim>\<open>case k + 1\<close> and \<^verbatim>\<open>case k\<close> it reads one
  register and writes it to \<^verbatim>\<open>buffer + k * 4\<close>: \<open>id_register k\<close> gives the
  \<open>cM, N\<close> of that read, \<open>read_cases\<close> is the fall-through entered at a
  label. The \<^verbatim>\<open>default\<close> label stands with \<^verbatim>\<open>case 18\<close>.
\<close>

definition id_register :: "nat \<Rightarrow> nat \<times> nat" where
  "id_register k = (if k < 4 then (0, k) else if k < 12 then (1, k - 4) else (2, k - 12))"

fun read_cases ::
  "(nat \<Rightarrow> nat \<Rightarrow> u32) \<Rightarrow> addr set \<Rightarrow> addr \<Rightarrow> nat \<Rightarrow> user_mem \<Rightarrow> int \<times> user_mem" where
  "read_cases mrc W buffer 0 mem = (0, mem)"
| "read_cases mrc W buffer (Suc k) mem =
     (case id_register k of (crm, opc2) \<Rightarrow>
        (case put_word W (mrc crm opc2) (buffer + of_nat (k * 4)) mem of
           (rc, mem1) \<Rightarrow>
             if rc \<noteq> 0 then (- EFAULT, mem1)
             else read_cases mrc W buffer k mem1))"

text \<open>
  \<open>device_read_switch\<close> is \<^verbatim>\<open>device_read\<close> from \<^verbatim>\<open>count = length/4\<close> on;
  \<^verbatim>\<open>return count * 4\<close> is an \<^verbatim>\<open>int\<close> product and overflows above
  \<^verbatim>\<open>INT_MAX\<close>. \<open>negative_length\<close> is the guard \<^verbatim>\<open>length < 0\<close> on the
  \<^verbatim>\<open>size_t\<close> argument: the 0 is converted to \<^verbatim>\<open>size_t\<close> and the comparison
  is unsigned.
\<close>

definition device_read_switch ::
  "(nat \<Rightarrow> nat \<Rightarrow> u32) \<Rightarrow> addr set \<Rightarrow> addr \<Rightarrow> int \<Rightarrow> user_mem \<Rightarrow> error + int \<times> user_mem" where
  "device_read_switch mrc W buffer count mem =
     (case read_cases mrc W buffer (if 0 \<le> count \<and> count \<le> 18 then nat count else 18) mem of
        (rc, mem1) \<Rightarrow>
          if rc \<noteq> 0 then Inr (- EFAULT, mem1)
          else if 2 ^ 31 - 1 < count * 4 then Inl Signed_overflow
          else Inr (count * 4, mem1))"

definition negative_length :: "size_t \<Rightarrow> bool" where
  "negative_length len = (len < 0)"

definition device_read ::
  "(nat \<Rightarrow> nat \<Rightarrow> u32) \<Rightarrow> addr set \<Rightarrow> addr \<Rightarrow> size_t \<Rightarrow> user_mem \<Rightarrow> error + int \<times> user_mem" where
  "device_read mrc W buffer len mem =
     (if negative_length len then Inr (0, mem)
      else device_read_switch mrc W buffer (uint (len div 4)) mem)"

section \<open>Properties of the ia32 dumper\<close>

subsection \<open>What a leaf enumeration can emit\<close>

text \<open>
  By induction over the loop as it is written, whatever its guard lets
  through: a call of the loop that returns has appended to the log only
  executions of \<^verbatim>\<open>cpuid\<close> at its leaf and rows of its leaf holding the
  instruction's results.
\<close>

lemma cpuid_leaf_loop_output:
  assumes "cpuid_leaf_loop q leaf subleaf last_subleaf log = Some out"
  shows "\<exists>evs. out = log @ evs \<and>
           (\<forall>e \<in> set evs. (\<exists>s. e = Query leaf s) \<or> (\<exists>s. e = Row leaf s (q leaf s)))"
proof (rule cpuid_leaf_loop.raw_induct
    [where P = "\<lambda>q leaf subleaf last_subleaf log out. \<exists>evs. out = log @ evs \<and>
           (\<forall>e \<in> set evs. (\<exists>s. e = Query leaf s) \<or> (\<exists>s. e = Row leaf s (q leaf s)))",
     OF _ assms])
  fix loop :: "query \<Rightarrow> u32 \<Rightarrow> u32 \<Rightarrow> cpuid_result \<Rightarrow> log \<Rightarrow> log option"
    and q leaf subleaf last_subleaf log out
  assume IH: "\<And>q leaf subleaf last_subleaf log out.
      loop q leaf subleaf last_subleaf log = Some out \<Longrightarrow>
      \<exists>evs. out = log @ evs \<and>
        (\<forall>e \<in> set evs. (\<exists>s. e = Query leaf s) \<or> (\<exists>s. e = Row leaf s (q leaf s)))"
    and step: "(if - 1 < subleaf
      then case do_cpuid q leaf subleaf log of
           (r, log1) \<Rightarrow>
             if switch_returns leaf subleaf r last_subleaf then Some log1
             else loop q leaf (subleaf + 1) r (print_subleaf leaf subleaf r log1)
      else Some log) = Some out"
  show "\<exists>evs. out = log @ evs \<and>
        (\<forall>e \<in> set evs. (\<exists>s. e = Query leaf s) \<or> (\<exists>s. e = Row leaf s (q leaf s)))"
  proof (cases "- 1 < subleaf")
    case False
    with step have "out = log @ []"
      by simp
    then show ?thesis
      by (metis empty_iff list.set(1))
  next
    case guard: True
    show ?thesis
    proof (cases "switch_returns leaf subleaf (q leaf subleaf) last_subleaf")
      case True
      with guard step have "out = log @ [Query leaf subleaf]"
        by (simp add: do_cpuid_def)
      then show ?thesis
        by auto
    next
      case False
      with guard step have
        "loop q leaf (subleaf + 1) (q leaf subleaf)
           (log @ [Query leaf subleaf, Row leaf subleaf (q leaf subleaf)]) = Some out"
        by (simp add: do_cpuid_def print_subleaf_def)
      from IH [OF this] obtain evs where
        evs: "out = (log @ [Query leaf subleaf, Row leaf subleaf (q leaf subleaf)]) @ evs"
          "\<forall>e \<in> set evs. (\<exists>s. e = Query leaf s) \<or> (\<exists>s. e = Row leaf s (q leaf s))"
        by blast
      have "out = log @ (Query leaf subleaf # Row leaf subleaf (q leaf subleaf) # evs)"
        using evs(1) by simp
      moreover have "\<forall>e \<in> set (Query leaf subleaf # Row leaf subleaf (q leaf subleaf) # evs).
          (\<exists>s. e = Query leaf s) \<or> (\<exists>s. e = Row leaf s (q leaf s))"
        using evs(2) by auto
      ultimately show ?thesis
        by blast
    qed
  qed
qed

subsection \<open>The subleaf loop never runs its body\<close>

text \<open>
  No \<^verbatim>\<open>uint32_t\<close> is above \<open>2^32 - 1\<close>, so the guard \<^verbatim>\<open>subleaf > -1\<close> fails
  at its first test: \<^verbatim>\<open>cpuid_leaf\<close> returns at once, having executed no
  \<^verbatim>\<open>cpuid\<close> and printed no row, whatever the instruction would answer.
\<close>

lemma guard_never_holds: "\<not> (- 1 < (subleaf :: u32))"
  by (simp add: not_less)

lemma cpuid_leaf_loop_returns: "cpuid_leaf_loop q leaf subleaf last_subleaf log = Some log"
  by (subst cpuid_leaf_loop.simps) (simp only: guard_never_holds if_False)

lemma cpuid_leaf_returns: "cpuid_leaf q leaf log = Some (log @ [Leaf_call leaf])"
  by (simp only: cpuid_leaf_def cpuid_leaf_loop_returns)

lemma leaves_seq_returns: "leaves_seq q leaves log = Some (Inr (log @ map Leaf_call leaves))"
  by (induction leaves arbitrary: log) (simp_all add: cpuid_leaf_returns)

subsection \<open>The leaf loop of cpuid_level\<close>

declare cpuid_level_loop.simps [simp del]

lemma unat_top: "unat (- 1 :: u32) = 4294967295"
  by (simp add: unsigned_minus_1_eq_mask mask_eq_exp_minus_1)

lemma unat_below_top:
  fixes w :: u32
  assumes "w \<noteq> - 1"
  shows "unat w < 4294967295"
proof -
  have "w < - 1"
    using assms by (simp add: word_order.not_eq_extremum)
  then have "unat w < unat (- 1 :: u32)"
    by (simp only: word_less_nat_alt)
  then show ?thesis
    by (simp only: unat_top)
qed

lemma unat_succ:
  fixes w :: u32
  assumes "w \<noteq> - 1"
  shows "unat (w + 1) = Suc (unat w)"
  using unat_below_top [OF assms] by (simp add: unat_word_ariths)

lemma level_loop_range:
  assumes "n = Suc (unat max_leaf) - unat leaf" "unat leaf \<le> Suc (unat max_leaf)"
    "max_leaf \<noteq> - 1" "0x7FFFFFFF < leaf \<or> max_leaf < 0x7FFFFFFF"
  shows "cpuid_level_loop q leaf max_leaf log
         = leaves_seq q (map of_nat [unat leaf..<Suc (unat max_leaf)]) log"
  using assms
proof (induction n arbitrary: leaf log)
  case 0
  then have eq: "unat leaf = Suc (unat max_leaf)" by simp
  then have "\<not> leaf \<le> max_leaf" by (simp add: word_le_nat_alt)
  then show ?case using eq
    by (subst cpuid_level_loop.simps) simp
next
  case (Suc n)
  then have le: "unat leaf \<le> unat max_leaf" by simp
  then have le': "leaf \<le> max_leaf" by (simp add: word_le_nat_alt)
  have top: "unat max_leaf < 4294967295"
    using Suc.prems(3) by (rule unat_below_top)
  have "leaf \<noteq> - 1"
    using le top unat_top by auto
  then have suc: "unat (leaf + 1) = Suc (unat leaf)"
    by (rule unat_succ)
  have no_ovf: "leaf \<noteq> 0x7FFFFFFF"
    using Suc.prems(4) le' by auto
  have next_ok: "0x7FFFFFFF < leaf + 1 \<or> max_leaf < 0x7FFFFFFF"
    using Suc.prems(4) suc by (auto simp: word_less_nat_alt)
  have IH: "cpuid_level_loop q (leaf + 1) max_leaf log1
            = leaves_seq q (map of_nat [Suc (unat leaf)..<Suc (unat max_leaf)]) log1" for log1
    using Suc.IH [of "leaf + 1" log1] Suc.prems(1,3) le next_ok suc by simp
  have list: "[unat leaf..<Suc (unat max_leaf)] = unat leaf # [Suc (unat leaf)..<Suc (unat max_leaf)]"
    using le by (simp add: upt_conv_Cons)
  have "cpuid_level_loop q leaf max_leaf log
        = cpuid_level_loop q (leaf + 1) max_leaf (log @ [Leaf_call leaf])"
    by (subst cpuid_level_loop.simps) (simp add: le' no_ovf cpuid_leaf_returns)
  also have "\<dots> = leaves_seq q (map of_nat [Suc (unat leaf)..<Suc (unat max_leaf)])
                      (log @ [Leaf_call leaf])"
    by (rule IH)
  also have "\<dots> = leaves_seq q (map of_nat (unat leaf # [Suc (unat leaf)..<Suc (unat max_leaf)])) log"
    by (simp add: cpuid_leaf_returns del: upt_Suc)
  finally show ?case
    by (simp only: list)
qed

lemma level_loop_top:
  "cpuid_level_loop q leaf (- 1) log = Some (Inl Signed_overflow)"
proof (induction q leaf "- 1 :: u32" log rule: cpuid_level_loop.induct)
  case (1 q leaf log)
  then show ?case
    by (subst cpuid_level_loop.simps) (simp add: cpuid_leaf_returns)
qed

lemma level_loop_crosses_int_max:
  "leaf \<le> 0x7FFFFFFF \<Longrightarrow> 0x7FFFFFFF \<le> max_leaf \<Longrightarrow>
   cpuid_level_loop q leaf max_leaf log = Some (Inl Signed_overflow)"
proof (induction q leaf max_leaf log rule: cpuid_level_loop.induct)
  case (1 q leaf max_leaf log)
  from "1.prems" have le: "leaf \<le> max_leaf"
    by simp
  show ?case
  proof (cases "leaf = 0x7FFFFFFF")
    case True
    with le show ?thesis
      by (subst cpuid_level_loop.simps) (simp add: cpuid_leaf_returns)
  next
    case False
    with "1.prems"(1) have "leaf < 0x7FFFFFFF"
      by simp
    then have "leaf + 1 \<le> 0x7FFFFFFF"
      by (simp add: inc_le)
    then have "cpuid_level_loop q (leaf + 1) max_leaf (log @ [Leaf_call leaf])
               = Some (Inl Signed_overflow)"
      using "1.IH" [OF le cpuid_leaf_returns False] "1.prems"(2) by simp
    with le False show ?thesis
      by (subst cpuid_level_loop.simps) (simp add: cpuid_leaf_returns)
  qed
qed

text \<open>
  The procedures only append to the log: what they add does not depend on
  what was printed before.
\<close>

lemma level_loop_frame:
  "cpuid_level_loop q leaf max_leaf (log0 @ log)
   = (case cpuid_level_loop q leaf max_leaf log of
        None \<Rightarrow> None
      | Some (Inl e) \<Rightarrow> Some (Inl e)
      | Some (Inr out) \<Rightarrow> Some (Inr (log0 @ out)))"
proof (induction q leaf max_leaf log rule: cpuid_level_loop.induct)
  case (1 q leaf max_leaf log)
  show ?case
  proof (cases "leaf \<le> max_leaf \<and> leaf \<noteq> 0x7FFFFFFF")
    case True
    then have "cpuid_level_loop q (leaf + 1) max_leaf (log0 @ log @ [Leaf_call leaf])
        = (case cpuid_level_loop q (leaf + 1) max_leaf (log @ [Leaf_call leaf]) of
             None \<Rightarrow> None
           | Some (Inl e) \<Rightarrow> Some (Inl e)
           | Some (Inr out) \<Rightarrow> Some (Inr (log0 @ out)))"
      using "1.IH" [of "log @ [Leaf_call leaf]"] by (simp add: cpuid_leaf_returns)
    with True show ?thesis
      by (subst cpuid_level_loop.simps, subst (2) cpuid_level_loop.simps)
        (simp add: cpuid_leaf_returns)
  next
    case False
    then show ?thesis
      by (subst cpuid_level_loop.simps, subst (2) cpuid_level_loop.simps)
        (auto simp: cpuid_leaf_returns)
  qed
qed

lemma cpuid_level_frame:
  "cpuid_level q level log
   = (case cpuid_level q level [] of
        None \<Rightarrow> None
      | Some (Inl e) \<Rightarrow> Some (Inl e)
      | Some (Inr out) \<Rightarrow> Some (Inr (log @ out)))"
  using level_loop_frame [of q level "eax (q level 0)" log "[Query level 0]"]
  by (simp add: cpuid_level_def do_cpuid_def)

subsection \<open>The leaves of a level\<close>

lemma leaf_calls_append: "leaf_calls (xs @ ys) = leaf_calls xs @ leaf_calls ys"
  by (induction xs rule: leaf_calls.induct) simp_all

lemma leaf_calls_map: "leaf_calls (map Leaf_call ls) = ls"
  by (induction ls) simp_all

lemma leaf_range_empty: "max_leaf < level \<Longrightarrow> leaf_range level max_leaf = []"
  by (simp add: leaf_range_def word_less_nat_alt)

lemma set_leaf_range: "set (leaf_range level max_leaf) = {level..max_leaf}"
proof (rule set_eqI)
  fix x :: u32
  show "x \<in> set (leaf_range level max_leaf) \<longleftrightarrow> x \<in> {level..max_leaf}"
  proof
    assume "x \<in> set (leaf_range level max_leaf)"
    then obtain n where n: "unat level \<le> n" "n \<le> unat max_leaf" "x = of_nat n"
      by (auto simp: leaf_range_def)
    have "n < 2 ^ 32"
      using n(2) unsigned_less [of max_leaf, where 'a = nat] by simp
    then have "unat x = n"
      using n(3) by (simp add: unat_of_nat)
    with n show "x \<in> {level..max_leaf}"
      by (simp add: word_le_nat_alt)
  next
    assume "x \<in> {level..max_leaf}"
    then have "unat level \<le> unat x" "unat x \<le> unat max_leaf"
      by (simp_all add: word_le_nat_alt)
    moreover have "x = of_nat (unat x)"
      by simp
    ultimately show "x \<in> set (leaf_range level max_leaf)"
      unfolding leaf_range_def by (metis atLeastLessThan_iff image_eqI le_imp_less_Suc list.set_map set_upt)
  qed
qed

lemma sorted_leaf_range: "sorted_wrt (<) (leaf_range level max_leaf)"
proof -
  have "sorted_wrt (\<lambda>m n. (of_nat m :: u32) < of_nat n) [unat level..<Suc (unat max_leaf)]"
  proof (rule sorted_wrt_mono_rel [where P = "(<)"])
    fix m n :: nat
    assume "m \<in> set [unat level..<Suc (unat max_leaf)]" "n \<in> set [unat level..<Suc (unat max_leaf)]"
      and mn: "m < n"
    then have "n \<le> unat max_leaf"
      by auto
    then have "n < 2 ^ 32"
      using unsigned_less [of max_leaf, where 'a = nat] by simp
    with mn have "unat (of_nat m :: u32) = m" "unat (of_nat n :: u32) = n"
      by (simp_all add: unat_of_nat)
    with mn show "(of_nat m :: u32) < of_nat n"
      by (simp add: word_less_nat_alt)
  next
    show "sorted_wrt (<) [unat level..<Suc (unat max_leaf)]"
      by (rule sorted_wrt_upt)
  qed
  then show ?thesis
    by (simp only: leaf_range_def sorted_wrt_map)
qed

lemma cpuid_level_in_range:
  assumes "eax (q level 0) < level \<or> eax (q level 0) < 0x7FFFFFFF
           \<or> (0x7FFFFFFF < level \<and> eax (q level 0) \<noteq> 0xFFFFFFFF)"
  shows "cpuid_level q level log
         = leaves_seq q (leaf_range level (eax (q level 0))) (log @ [Query level 0])"
proof (cases "eax (q level 0) < level")
  case True
  then have "\<not> level \<le> eax (q level 0)"
    by simp
  then have "cpuid_level_loop q level (eax (q level 0)) (log @ [Query level 0])
             = Some (Inr (log @ [Query level 0]))"
    by (subst cpuid_level_loop.simps) simp
  then show ?thesis
    by (simp add: cpuid_level_def do_cpuid_def leaf_range_empty [OF True])
next
  case False
  then have le: "unat level \<le> Suc (unat (eax (q level 0)))"
    by (simp add: word_less_nat_alt)
  have top: "eax (q level 0) \<noteq> - 1"
    using assms False by auto
  have ovf: "0x7FFFFFFF < level \<or> eax (q level 0) < 0x7FFFFFFF"
    using assms False by auto
  show ?thesis
    using level_loop_range [OF refl le top ovf, of q "log @ [Query level 0]"]
    by (simp only: cpuid_level_def do_cpuid_def leaf_range_def split: prod.splits) simp
qed

text \<open>
  Outside the range handled by \<open>cpuid_level_in_range\<close> the loop reaches the
  increment of \<^verbatim>\<open>INT_MAX\<close>.
\<close>

lemma cpuid_level_overflow:
  assumes "level \<le> eax (q level 0)" "0x7FFFFFFF \<le> eax (q level 0)"
    "level \<le> 0x7FFFFFFF \<or> eax (q level 0) = 0xFFFFFFFF"
  shows "cpuid_level q level log = Some (Inl Signed_overflow)"
proof (cases "eax (q level 0) = - 1")
  case True
  then show ?thesis
    by (simp add: cpuid_level_def do_cpuid_def level_loop_top)
next
  case False
  moreover have "(0xFFFFFFFF :: u32) = - 1"
    by simp
  ultimately have "level \<le> 0x7FFFFFFF"
    using assms(3) by (simp only: simp_thms)
  then show ?thesis
    using assms(2) by (simp add: cpuid_level_def do_cpuid_def level_loop_crosses_int_max)
qed

subsection \<open>What the switch decides on the scripted results\<close>

text \<open>
  The stop conditions of the loop body, evaluated on the scripted primitives:
  they say where an enumeration that ran its body would stop.
\<close>

lemma script_leaf7_switch:
  "\<not> switch_returns 0x7 0 (script_leaf7 0x7 0) zero_result"
  "\<not> switch_returns 0x7 1 (script_leaf7 0x7 1) (script_leaf7 0x7 0)"
  "\<not> switch_returns 0x7 2 (script_leaf7 0x7 2) (script_leaf7 0x7 1)"
  "switch_returns 0x7 3 (script_leaf7 0x7 3) (script_leaf7 0x7 2)"
  by (simp_all add: switch_returns_def script_leaf7_def)

lemma script_zero_at_1_switch:
  "\<not> switch_returns 0x1 0 (script_zero_at_1 0x1 0) zero_result"
  "switch_returns 0x1 1 (script_zero_at_1 0x1 1) (script_zero_at_1 0x1 0)"
  by (simp_all add: switch_returns_def script_zero_at_1_def zero_result_def)

lemma script_topology_switch_0xb:
  "\<not> switch_returns 0xb 0 (script_topology 0xb 0) zero_result"
  "\<not> switch_returns 0xb 1 (script_topology 0xb 1) (script_topology 0xb 0)"
  "switch_returns 0xb 2 (script_topology 0xb 2) (script_topology 0xb 1)"
  by (simp_all add: switch_returns_def script_topology_def zero_result_def)

lemma script_topology_switch_0x1f:
  "\<not> switch_returns 0x1f 0 (script_topology 0x1f 0) zero_result"
  "\<not> switch_returns 0x1f 1 (script_topology 0x1f 1) (script_topology 0x1f 0)"
  "switch_returns 0x1f 2 (script_topology 0x1f 2) (script_topology 0x1f 1)"
  by (simp_all add: switch_returns_def script_topology_def zero_result_def)

lemma nothing_above_top: "\<not> (0xFFFFFFFF < (subleaf :: u32))"
proof -
  have "(0xFFFFFFFF :: u32) = - 1"
    by simp
  then show ?thesis
    by (simp only: guard_never_holds not_False_eq_True)
qed

lemma never_stops_switch:
  "\<not> switch_returns leaf subleaf (never_stops leaf subleaf)
       (if subleaf = 0 then zero_result else never_stops leaf (subleaf - 1))"
  by (simp add: switch_returns_def never_stops_def zero_result_def nothing_above_top)

subsection \<open>Claims about the ia32 dumper\<close>

text \<open>
  Claim C1 says that for leaf 7 (and \<open>0x14\<close>) the rows of the subleaves
  before the first \<open>s\<close> with \<open>s > eax\<close> are printed: three rows when every
  subleaf reports \<open>eax = 2\<close>. On that input (\<open>script_leaf7\<close>, for which the
  switch first returns at subleaf 3, see \<open>script_leaf7_switch\<close>) the code
  prints no row and executes no \<^verbatim>\<open>cpuid\<close>: the log of
  \<^verbatim>\<open>cpuid_leaf(7)\<close> holds the entry into the function and nothing else.
\<close>

theorem cpuid_leaf_0x7_prints_nothing:
  "cpuid_leaf script_leaf7 0x7 [] = Some [Leaf_call 0x7]"
  by (simp only: cpuid_leaf_returns append_Nil)

text \<open>
  Claim C2 says that under the default rule the rows before the first
  all-zero or repeated result are printed. With subleaf 0 nonzero and
  subleaf 1 all-zero (\<open>script_zero_at_1\<close>, see \<open>script_zero_at_1_switch\<close>)
  that is one row, for subleaf 0; the code prints no row for leaf 1.
\<close>

theorem cpuid_leaf_default_prints_nothing:
  "cpuid_leaf script_zero_at_1 0x1 [] = Some [Leaf_call 0x1]"
  by (simp only: cpuid_leaf_returns append_Nil)

text \<open>
  Claim C3, as the code has it. \<^verbatim>\<open>main\<close> keeps "not given" as the value
  \<^verbatim>\<open>0xffffffff\<close> of the two variables. For a leaf and a subleaf that both
  differ from \<^verbatim>\<open>0xffffffff\<close>, \<^verbatim>\<open>main\<close> executes exactly one
  \<^verbatim>\<open>cpuid\<close>, at that leaf and subleaf, and prints exactly one row, the
  result of that instruction, whatever the result is; and whatever the two
  options are, a run of \<^verbatim>\<open>main\<close> that returns does so with exit status 0.
\<close>

theorem main_explicit_selector:
  "(leaf \<noteq> 0xffffffff \<and> subleaf \<noteq> 0xffffffff \<longrightarrow>
      main q (Some leaf) (Some subleaf)
      = Some (Inr (0, [Header, Query leaf subleaf, Row leaf subleaf (q leaf subleaf)]))) \<and>
   (case main q leaf_opt subleaf_opt of Some (Inr (rc, out)) \<Rightarrow> rc = 0 | _ \<Rightarrow> True)"
  by (auto simp: main_def do_cpuid_def print_subleaf_def Let_def split: option.splits sum.splits)

theorem main_explicit_selector_witness:
  "main all_zero (Some 1) (Some 0) = Some (Inr (0, [Header, Query 1 0, Row 1 0 zero_result]))"
  using main_explicit_selector [of 1 0 all_zero None None] by (simp add: all_zero_def)

text \<open>
  An explicit subleaf \<^verbatim>\<open>0xffffffff\<close> is taken for "not given": with leaf 7
  the run is the enumeration of leaf 7, which executes no \<^verbatim>\<open>cpuid\<close> at
  \<open>(7, 0xffffffff)\<close> and prints no row.
\<close>

theorem main_explicit_sentinel_counterexample:
  "main all_zero (Some 0x7) (Some 0xffffffff) = Some (Inr (0, [Header, Leaf_call 0x7])) \<and>
   main all_zero (Some 0x7) (Some 0xffffffff)
   \<noteq> Some (Inr (0, [Header, Query 0x7 0xffffffff, Row 0x7 0xffffffff (all_zero 0x7 0xffffffff)]))"
  by (simp add: main_def cpuid_leaf_returns)

text \<open>
  Claim C4, as the code has it. The subleaf enumeration reports no
  internal-limit-exceeded condition and has no failure outcome. A call of
  \<^verbatim>\<open>cpuid_leaf\<close> that returns has emitted, after its entry, only executions
  of \<^verbatim>\<open>cpuid\<close> at its leaf and rows of its leaf; \<^verbatim>\<open>main\<close>, run for one
  leaf, then exits with status 0 and exactly that output, and does not return
  when the call does not. Whether the call returns is not part of the
  statement.
\<close>

theorem cpuid_leaf_no_limit_report:
  "(cpuid_leaf q leaf log = Some out \<longrightarrow>
      (\<exists>evs. out = log @ Leaf_call leaf # evs \<and>
         (\<forall>e \<in> set evs. (\<exists>s. e = Query leaf s) \<or> (\<exists>s. e = Row leaf s (q leaf s))))) \<and>
   (leaf \<noteq> 0xffffffff \<longrightarrow>
      main q (Some leaf) None =
        (case cpuid_leaf q leaf [Header] of
           None \<Rightarrow> None
         | Some out1 \<Rightarrow> Some (Inr (0, out1))))"
proof (intro conjI impI)
  assume "cpuid_leaf q leaf log = Some out"
  then have "cpuid_leaf_loop q leaf 0 zero_result (log @ [Leaf_call leaf]) = Some out"
    by (simp only: cpuid_leaf_def)
  from cpuid_leaf_loop_output [OF this] obtain evs where
    "out = (log @ [Leaf_call leaf]) @ evs"
    "\<forall>e \<in> set evs. (\<exists>s. e = Query leaf s) \<or> (\<exists>s. e = Row leaf s (q leaf s))"
    by blast
  then show "\<exists>evs. out = log @ Leaf_call leaf # evs \<and>
         (\<forall>e \<in> set evs. (\<exists>s. e = Query leaf s) \<or> (\<exists>s. e = Row leaf s (q leaf s)))"
    by auto
next
  assume "leaf \<noteq> 0xffffffff"
  then show "main q (Some leaf) None =
        (case cpuid_leaf q leaf [Header] of
           None \<Rightarrow> None
         | Some out1 \<Rightarrow> Some (Inr (0, out1)))"
    by (simp add: main_def)
qed

theorem cpuid_leaf_no_limit_report_witness:
  "cpuid_leaf never_stops 0x1f [Header] = Some [Header, Leaf_call 0x1f] \<and>
   (\<exists>evs. [Header, Leaf_call 0x1f] = [Header] @ Leaf_call 0x1f # evs) \<and>
   (0x1f :: u32) \<noteq> 0xffffffff \<and>
   main never_stops (Some 0x1f) None = Some (Inr (0, [Header, Leaf_call 0x1f]))"
  using cpuid_leaf_no_limit_report [of never_stops "0x1f" "[Header]" "[Header, Leaf_call 0x1f]"]
  by (simp add: cpuid_leaf_returns)

text \<open>
  No limit is reported: on \<open>never_stops\<close>, whose results never satisfy the
  stop condition of leaf \<open>0x1f\<close>, the run for that leaf exits with status 0
  and prints the heading only, exactly as on a primitive that answers zero
  everywhere.
\<close>

theorem cpuid_leaf_limit_counterexample:
  "\<not> switch_returns 0x1f 0 (never_stops 0x1f 0) zero_result \<and>
   main never_stops (Some 0x1f) None = Some (Inr (0, [Header, Leaf_call 0x1f])) \<and>
   main never_stops (Some 0x1f) None = main all_zero (Some 0x1f) None"
  by (simp add: main_def cpuid_leaf_returns switch_returns_def never_stops_def)

text \<open>
  Claim C5 says that for leaf \<open>0xb\<close> the rows before the first result with
  \<open>eax = 0\<close>, \<open>ebx = 0\<close> and \<open>ecx AND 0xFFFFFF00 = 0\<close> are printed: two
  rows when \<open>ecx\<close> is \<open>0x100\<close>, \<open>0x200\<close> and then the result is zero
  (\<open>script_topology\<close>, see \<open>script_topology_switch_0xb\<close>). The code prints no
  row for leaf \<open>0xb\<close>.
\<close>

theorem cpuid_leaf_0xb_prints_nothing:
  "cpuid_leaf script_topology 0xb [] = Some [Leaf_call 0xb]"
  by (simp only: cpuid_leaf_returns append_Nil)

text \<open>
  Claim C6 says that for leaf \<open>0x1f\<close> the rows before the first result with
  bits 8 to 15 of \<open>ecx\<close> zero are printed: two rows on \<open>script_topology\<close>
  (see \<open>script_topology_switch_0x1f\<close>). The code prints no row for leaf
  \<open>0x1f\<close>.
\<close>

theorem cpuid_leaf_0x1f_prints_nothing:
  "cpuid_leaf script_topology 0x1f [] = Some [Leaf_call 0x1f]"
  by (simp only: cpuid_leaf_returns append_Nil)

text \<open>
  Claim C7, as the code has it. Let \<open>max_leaf\<close> be \<open>eax\<close> of the result at
  \<open>(level, 0)\<close>. Provided \<open>max_leaf < level\<close>, or \<open>max_leaf < 0x7FFFFFFF\<close>, or
  \<open>level > 0x7FFFFFFF\<close> and \<open>max_leaf \<noteq> 0xFFFFFFFF\<close>: \<^verbatim>\<open>cpuid_level\<close>
  executes \<^verbatim>\<open>cpuid\<close> at \<open>(level, 0)\<close> once, then calls \<^verbatim>\<open>cpuid_leaf\<close> for
  the leaves of \<open>leaf_range level max_leaf\<close> one after the other, and
  returns; the leaves it called are exactly those, which are the leaves
  \<open>l\<close> with \<open>level \<le> l \<le> max_leaf\<close> in increasing order; and when
  \<open>max_leaf < level\<close> nothing follows the one \<^verbatim>\<open>cpuid\<close> and the call
  returns normally.
\<close>

theorem cpuid_level_leaves:
  assumes "eax (q level 0) < level \<or> eax (q level 0) < 0x7FFFFFFF
           \<or> (0x7FFFFFFF < level \<and> eax (q level 0) \<noteq> 0xFFFFFFFF)"
  shows "cpuid_level q level log
           = leaves_seq q (leaf_range level (eax (q level 0))) (log @ [Query level 0]) \<and>
         (\<exists>out. cpuid_level q level log = Some (Inr out) \<and>
                leaf_calls out = leaf_calls log @ leaf_range level (eax (q level 0))) \<and>
         set (leaf_range level (eax (q level 0))) = {level..eax (q level 0)} \<and>
         sorted_wrt (<) (leaf_range level (eax (q level 0))) \<and>
         (eax (q level 0) < level \<longrightarrow>
            cpuid_level q level log = Some (Inr (log @ [Query level 0])))"
proof -
  have run: "cpuid_level q level log
             = leaves_seq q (leaf_range level (eax (q level 0))) (log @ [Query level 0])"
    using assms by (rule cpuid_level_in_range)
  then have out: "cpuid_level q level log
      = Some (Inr ((log @ [Query level 0]) @ map Leaf_call (leaf_range level (eax (q level 0)))))"
    by (simp only: leaves_seq_returns)
  have calls: "leaf_calls ((log @ [Query level 0]) @ map Leaf_call (leaf_range level (eax (q level 0))))
               = leaf_calls log @ leaf_range level (eax (q level 0))"
    by (simp add: leaf_calls_append leaf_calls_map)
  have empty: "eax (q level 0) < level \<longrightarrow>
               cpuid_level q level log = Some (Inr (log @ [Query level 0]))"
    using out by (simp add: leaf_range_empty)
  show ?thesis
    using run out calls empty set_leaf_range sorted_leaf_range by blast
qed

theorem cpuid_level_leaves_witness:
  "eax (script_leaf7 0 0) < 0x7FFFFFFF \<and>
   cpuid_level script_leaf7 0 [] = Some (Inr [Query 0 0, Leaf_call 0, Leaf_call 1, Leaf_call 2])"
proof -
  have h: "eax (script_leaf7 0 0) < 0x7FFFFFFF"
    by (simp add: script_leaf7_def)
  have r: "leaf_range 0 (eax (script_leaf7 0 0)) = [0, 1, 2]"
    by (simp add: leaf_range_def script_leaf7_def upt_rec)
  show ?thesis
    using h cpuid_level_leaves [of script_leaf7 0 "[]"]
    by (simp add: r cpuid_leaf_returns)
qed

text \<open>
  Without the proviso the claim fails. From the base \<open>0x80000000\<close> with
  \<open>max_leaf = 0xFFFFFFFF\<close> the loop guard \<^verbatim>\<open>leaf <= max_leaf\<close> never
  fails: \<^verbatim>\<open>++leaf\<close> takes the variable from -1 to 0, to leaves below the
  base, and on to \<^verbatim>\<open>INT_MAX\<close>, where it overflows. From the base 0 with
  \<open>max_leaf = 0x7FFFFFFF\<close> the increment after the last leaf overflows. In
  both runs \<^verbatim>\<open>cpuid_level\<close> does not return after the leaves from the
  base to \<open>max_leaf\<close>.
\<close>

theorem cpuid_level_top_counterexample:
  "cpuid_level all_ones 0x80000000 [] = Some (Inl Signed_overflow) \<and>
   cpuid_level all_ones 0x80000000 []
   \<noteq> leaves_seq all_ones (leaf_range 0x80000000 (eax (all_ones 0x80000000 0)))
        [Query 0x80000000 0] \<and>
   cpuid_level int_max_everywhere 0 [] = Some (Inl Signed_overflow) \<and>
   cpuid_level int_max_everywhere 0 []
   \<noteq> leaves_seq int_max_everywhere (leaf_range 0 (eax (int_max_everywhere 0 0))) [Query 0 0]"
proof -
  have a: "cpuid_level all_ones 0x80000000 [] = Some (Inl Signed_overflow)"
    by (rule cpuid_level_overflow) (simp_all add: all_ones_def)
  have b: "cpuid_level int_max_everywhere 0 [] = Some (Inl Signed_overflow)"
    by (rule cpuid_level_overflow) (simp_all add: int_max_everywhere_def)
  show ?thesis
    unfolding a b by (simp add: leaves_seq_returns)
qed

text \<open>
  Claim C8. \<^verbatim>\<open>dump_cpuid\<close> is \<^verbatim>\<open>cpuid_level(0)\<close> followed by
  \<^verbatim>\<open>cpuid_level(0x80000000)\<close>, in that order and with those two bases only:
  when both levels return, the output of the dump is the output of level 0
  followed by the output of level \<open>0x80000000\<close>, each as produced on its own;
  when a level does not return normally, the dump ends the way the first such
  level ends.
\<close>

theorem dump_cpuid_concat:
  "dump_cpuid q log =
     (case cpuid_level q 0 [] of
        Some (Inr rows0) \<Rightarrow>
          (case cpuid_level q 0x80000000 [] of
             Some (Inr rows1) \<Rightarrow> Some (Inr (log @ rows0 @ rows1))
           | other \<Rightarrow> other)
      | other \<Rightarrow> other)"
proof -
  have a: "cpuid_level q 0 log
           = (case cpuid_level q 0 [] of
                None \<Rightarrow> None
              | Some (Inl e) \<Rightarrow> Some (Inl e)
              | Some (Inr out) \<Rightarrow> Some (Inr (log @ out)))"
    by (rule cpuid_level_frame)
  have b: "cpuid_level q 0x80000000 (log @ rows0)
           = (case cpuid_level q 0x80000000 [] of
                None \<Rightarrow> None
              | Some (Inl e) \<Rightarrow> Some (Inl e)
              | Some (Inr out) \<Rightarrow> Some (Inr ((log @ rows0) @ out)))" for rows0
    by (rule cpuid_level_frame)
  show ?thesis
    unfolding dump_cpuid_def a
    by (simp add: b split: option.splits sum.splits)
qed

text \<open>
  Claim C10. With \<^verbatim>\<open>-s\<close> given and \<^verbatim>\<open>-l\<close> not given, \<^verbatim>\<open>main\<close> runs the
  full dump and the subleaf value plays no part: the run is the run with no
  option at all, for every subleaf value.
\<close>

theorem main_subleaf_without_leaf:
  "main q None (Some subleaf) = main q None None \<and>
   main q None (Some subleaf) =
     (case dump_cpuid q [Header] of
        None \<Rightarrow> None
      | Some (Inl e) \<Rightarrow> Some (Inl e)
      | Some (Inr log1) \<Rightarrow> Some (Inr (0, log1)))"
  by (simp add: main_def)

section \<open>Properties of the ARM driver\<close>

text \<open>
  Claim C9. The guard \<^verbatim>\<open>length < 0\<close> of \<^verbatim>\<open>device_read\<close> is false for
  every \<^verbatim>\<open>size_t\<close> value, so its \<^verbatim>\<open>return 0\<close> is never executed:
  \<^verbatim>\<open>device_read\<close> always goes on to \<^verbatim>\<open>count = length/4\<close> and the switch.
\<close>

theorem device_read_guard_dead:
  "\<not> negative_length len \<and>
   device_read mrc W buffer len mem = device_read_switch mrc W buffer (uint (len div 4)) mem"
  by (simp add: negative_length_def device_read_def)

end
